theory Spec2Isabelle
  imports Complex_Main "HOL-Library.Multiset"
begin

section \<open>Values and errors\<close>

text \<open>
  The program is \<^verbatim>\<open>glm_mda_diffusion.py\<close>. Python floats are read as real numbers with
  exact arithmetic; rounding, infinities and overflow are outside this development.
  Python raises are values of type \<open>error\<close>: \<open>ValueError\<close> carries the message (the
  parser's \<^verbatim>\<open>"Malformed seqence passed: " + block\<close>, the specification's
  MalformedSequence), \<open>KeyError\<close> the symbol missing from \<^verbatim>\<open>aminoacid_masses\<close>
  (the specification's UnknownResidue).
\<close>

datatype error =
    ValueError string
  | KeyError char
  | ZeroDivisionError
  | IndexError
  | LinAlgError
  | CollaboratorError string

text \<open>
  A Python number that the parser stores as a radius. \<^verbatim>\<open>x ** (1 / 3)\<close> on a negative
  float does not raise: it yields the principal complex root.
\<close>

datatype pynum = PyFloat real | PyComplex complex

definition py_pow_third :: "real \<Rightarrow> pynum" where
  "py_pow_third x =
     (if 0 \<le> x then PyFloat (x powr (1 / 3))
      else PyComplex (of_real ((- x) powr (1 / 3)) * cis (pi / 3)))"

fun py_add :: "pynum \<Rightarrow> real \<Rightarrow> pynum" where
  "py_add (PyFloat x) y = PyFloat (x + y)"
| "py_add (PyComplex z) y = PyComplex (z + of_real y)"

section \<open>The mass table\<close>

definition default_aminoacid_masses :: "char \<rightharpoonup> real" where
  "default_aminoacid_masses = map_of
     [(CHR ''A'', 71.08), (CHR ''C'', 103.14), (CHR ''D'', 115.09), (CHR ''E'', 129.12),
      (CHR ''F'', 147.18), (CHR ''G'', 57.06), (CHR ''H'', 137.15), (CHR ''I'', 113.17),
      (CHR ''K'', 128.18), (CHR ''L'', 113.17), (CHR ''M'', 131.21), (CHR ''N'', 114.11),
      (CHR ''P'', 97.12), (CHR ''Q'', 128.41), (CHR ''R'', 156.2), (CHR ''S'', 87.08),
      (CHR ''T'', 101.11), (CHR ''V'', 99.14), (CHR ''W'', 186.21), (CHR ''Y'', 163.18),
      (CHR ''Z'', 0), (CHR ''O'', 0), (CHR ''U'', 0), (CHR ''J'', 0), (CHR ''X'', 0),
      (CHR ''B'', 0)]"

section \<open>Splitting the annotated sequence\<close>

text \<open>
  \<^verbatim>\<open>re.split("(\[[A-Z].*?\])", annotated_sequence)\<close>. The pattern is one capturing
  group: an opening bracket, one letter of \<^verbatim>\<open>A-Z\<close>, the shortest run of characters
  other than a newline, a closing bracket. \<open>lazy_dot_close\<close> is the tail
  \<^verbatim>\<open>.*?\]\<close>: it returns the characters consumed before the bracket and the rest of
  the input after it.
\<close>

definition is_upper :: "char \<Rightarrow> bool" where
  "is_upper c \<longleftrightarrow> (65::nat) \<le> of_char c \<and> (of_char c :: nat) \<le> 90"

fun lazy_dot_close :: "string \<Rightarrow> (string \<times> string) option" where
  "lazy_dot_close [] = None"
| "lazy_dot_close (c # cs) =
     (if c = CHR '']'' then Some ([], cs)
      else if c = CHR 0x0A then None
      else (case lazy_dot_close cs of
              None \<Rightarrow> None
            | Some (m, rest) \<Rightarrow> Some (c # m, rest)))"

fun match_domain :: "string \<Rightarrow> (string \<times> string) option" where
  "match_domain (a # b # cs) =
     (if a = CHR ''['' \<and> is_upper b
      then (case lazy_dot_close cs of
              None \<Rightarrow> None
            | Some (m, rest) \<Rightarrow> Some (a # b # m @ '']'', rest))
      else None)"
| "match_domain _ = None"

lemma lazy_dot_close_shorter:
  "lazy_dot_close cs = Some (m, rest) \<Longrightarrow> length rest < length cs"
  by (induction cs arbitrary: m) (auto split: if_splits option.splits)

lemma match_domain_shorter:
  "match_domain s = Some (m, rest) \<Longrightarrow> length rest < length s"
  by (cases s rule: match_domain.cases)
     (auto split: if_splits option.splits dest: lazy_dot_close_shorter)

text \<open>
  The scan of \<^verbatim>\<open>re.split\<close>: \<open>pending\<close> is the text since the last match. A match
  emits the pending text (possibly empty) and the captured group; the end of the input
  emits the pending text (possibly empty).
\<close>

function re_split_from :: "string \<Rightarrow> string \<Rightarrow> string list" where
  "re_split_from pending [] = [pending]"
| "re_split_from pending (c # cs) =
     (case match_domain (c # cs) of
        Some (m, rest) \<Rightarrow> pending # m # re_split_from [] rest
      | None \<Rightarrow> re_split_from (pending @ [c]) cs)"
  by pat_completeness auto
termination
  by (relation "measure (\<lambda>(pending, s). length s)")
     (auto dest: match_domain_shorter)

definition re_split :: "string \<Rightarrow> string list" where
  "re_split annotated_sequence = re_split_from [] annotated_sequence"

section \<open>The sequence parser\<close>

type_synonym bead_group = "pynum \<times> pynum \<times> int"

text \<open>\<^verbatim>\<open>sum(aminoacid_masses[aa] for aa in block[1:-1])\<close>: starts at 0, adds from the left,
  and the first missing key raises.\<close>

fun sum_masses :: "(char \<rightharpoonup> real) \<Rightarrow> string \<Rightarrow> real \<Rightarrow> error + real" where
  "sum_masses aminoacid_masses [] acc = Inr acc"
| "sum_masses aminoacid_masses (aa # rest) acc =
     (case aminoacid_masses aa of
        None \<Rightarrow> Inl (KeyError aa)
      | Some v \<Rightarrow> sum_masses aminoacid_masses rest (acc + v))"

definition block_excluded_volume_radius :: "real \<Rightarrow> real \<Rightarrow> pynum" where
  "block_excluded_volume_radius block_mass effective_density =
     py_pow_third (block_mass * (3 / (4 * pi)) / effective_density)"

definition is_domain_block :: "string \<Rightarrow> bool" where
  "is_domain_block block \<longleftrightarrow>
     length block \<ge> 2 \<and> hd block = CHR ''['' \<and> last block = CHR '']''"

definition is_linker_block :: "string \<Rightarrow> bool" where
  "is_linker_block block \<longleftrightarrow>
     length block > 0 \<and> hd block \<noteq> CHR ''['' \<and> last block \<noteq> CHR '']''"

text \<open>The body of the \<^verbatim>\<open>for block in blocks\<close> loop: the entry appended for one block.\<close>

definition block_entry ::
  "real \<Rightarrow> real \<Rightarrow> real \<Rightarrow> real \<Rightarrow> (char \<rightharpoonup> real) \<Rightarrow> string \<Rightarrow> error + bead_group" where
  "block_entry hydrodynamic_radius steric_radius effective_density hydration_thickness
               aminoacid_masses block =
     (if is_domain_block block then
        (case sum_masses aminoacid_masses (butlast (tl block)) 0 of
           Inl e \<Rightarrow> Inl e
         | Inr block_mass \<Rightarrow>
             if effective_density = 0 then Inl ZeroDivisionError
             else
               let block_radius =
                     py_add (block_excluded_volume_radius block_mass effective_density)
                            hydration_thickness
               in Inr (block_radius, block_radius, 1))
      else if is_linker_block block then
        Inr (PyFloat hydrodynamic_radius, PyFloat steric_radius, int (length block))
      else Inl (ValueError (''Malformed seqence passed: '' @ block)))"

fun parse_blocks ::
  "real \<Rightarrow> real \<Rightarrow> real \<Rightarrow> real \<Rightarrow> (char \<rightharpoonup> real) \<Rightarrow> string list \<Rightarrow> bead_group list
   \<Rightarrow> error + bead_group list" where
  "parse_blocks hr sr d h ms [] bdc = Inr bdc"
| "parse_blocks hr sr d h ms (block # blocks) bdc =
     (case block_entry hr sr d h ms block of
        Inl e \<Rightarrow> Inl e
      | Inr g \<Rightarrow> parse_blocks hr sr d h ms blocks (bdc @ [g]))"

definition bead_description_compact ::
  "string \<Rightarrow> real \<Rightarrow> real \<Rightarrow> real \<Rightarrow> real \<Rightarrow> (char \<rightharpoonup> real) \<Rightarrow> error + bead_group list" where
  "bead_description_compact annotated_sequence hydrodynamic_radius steric_radius
                            effective_density hydration_thickness aminoacid_masses =
     parse_blocks hydrodynamic_radius steric_radius effective_density hydration_thickness
                  aminoacid_masses (re_split annotated_sequence) []"

section \<open>The bead radius expander\<close>

text \<open>
  \<^verbatim>\<open>sum(([sr] * n for (hr, sr, n) in bead_description_compact), [])\<close>: a left fold of list
  concatenation from the empty list; \<^verbatim>\<open>[sr] * n\<close> is empty for \<^verbatim>\<open>n <= 0\<close>.
\<close>

definition bead_steric_radii :: "bead_group list \<Rightarrow> pynum list" where
  "bead_steric_radii bdc = foldl (@) [] (map (\<lambda>(hr, sr, n). replicate (nat n) sr) bdc)"

definition bead_hydrodynamic_radii :: "bead_group list \<Rightarrow> pynum list" where
  "bead_hydrodynamic_radii bdc = foldl (@) [] (map (\<lambda>(hr, sr, n). replicate (nat n) hr) bdc)"

section \<open>Arrays\<close>

text \<open>
  An array is a nested list. A mobility tensor of \<open>N\<close> beads is \<open>N \<times> N \<times> 3 \<times> 3\<close>;
  \<^verbatim>\<open>grand_grand_mu\<close> is the list of the tensors of the ensemble (axis 0).
\<close>

type_synonym matrix = "real list list"
type_synonym tensor = "real list list list list"

definition has_shape :: "nat \<Rightarrow> nat \<Rightarrow> nat \<Rightarrow> nat \<Rightarrow> tensor \<Rightarrow> bool" where
  "has_shape n1 n2 n3 n4 t \<longleftrightarrow>
     length t = n1 \<and>
     (\<forall>x \<in> set t. length x = n2 \<and>
        (\<forall>y \<in> set x. length y = n3 \<and> (\<forall>z \<in> set y. length z = n4)))"

definition tensor_add :: "tensor \<Rightarrow> tensor \<Rightarrow> tensor" where
  "tensor_add = map2 (map2 (map2 (map2 (+))))"

text \<open>
  \<^verbatim>\<open>np.mean(grand_grand_mu, axis=0)\<close>: the sum along axis 0, divided by the count. The
  tensors are added exactly here, so the order in which they are added does not show in the
  result; \<open>np_sum_axis0_rounded\<close> below adds them as binary64 does, in the order of the
  ensemble, with a rounding after every addition.
\<close>

fun np_sum_axis0 :: "tensor list \<Rightarrow> tensor" where
  "np_sum_axis0 [] = []"
| "np_sum_axis0 (t # ts) = foldl tensor_add t ts"

definition np_mean_axis0 :: "tensor list \<Rightarrow> tensor" where
  "np_mean_axis0 ggm =
     map (map (map (map (\<lambda>x. x / real (length ggm))))) (np_sum_axis0 ggm)"

text \<open>\<^verbatim>\<open>np.trace(grand_mu, axis1=-2, axis2=-1)\<close>: the trace of every innermost matrix.\<close>

fun diagonal :: "matrix \<Rightarrow> real list" where
  "diagonal [] = []"
| "diagonal (r # rs) = (case r of [] \<Rightarrow> [] | x # _ \<Rightarrow> x # diagonal (map tl rs))"

definition np_trace :: "matrix \<Rightarrow> real" where
  "np_trace m = sum_list (diagonal m)"

definition np_trace_last2 :: "tensor \<Rightarrow> matrix" where
  "np_trace_last2 t = map (map np_trace) t"

definition np_sum :: "matrix \<Rightarrow> real" where
  "np_sum m = sum_list (concat m)"

section \<open>The effective radius\<close>

text \<open>
  Lines 130 to 135, and again lines 147 to 151 on the resampled ensemble.
  \<^verbatim>\<open>np.linalg.inv\<close> is the parameter \<open>linalg_inv\<close>. On an empty ensemble the mean is a
  scalar and \<^verbatim>\<open>np.trace\<close> raises.
\<close>

definition effective_rh :: "(matrix \<Rightarrow> error + matrix) \<Rightarrow> tensor list \<Rightarrow> error + real" where
  "effective_rh linalg_inv grand_grand_mu =
     (if grand_grand_mu = []
      then Inl (ValueError ''diag requires an array of at least two dimensions'')
      else
        let grand_mu = np_mean_axis0 grand_grand_mu;
            grand_trace = np_trace_last2 grand_mu
        in case linalg_inv grand_trace of
             Inl e \<Rightarrow> Inl e
           | Inr inv_mat \<Rightarrow>
               let total = np_sum inv_mat
               in Inr (total / (2 * pi)))"

section \<open>Bootstrap\<close>

text \<open>
  The state threaded through the run: the random source read by the chain generator and by
  \<^verbatim>\<open>np.random.choice\<close>, and the number of calls of the chain generator so far.
\<close>

record 'w world =
  rng :: 'w
  chain_calls :: nat

datatype npfloat = Finite real | NaN

text \<open>\<^verbatim>\<open>np.std\<close> with its default \<^verbatim>\<open>ddof=0\<close>; of no values it is \<^verbatim>\<open>nan\<close>.\<close>

definition np_std :: "real list \<Rightarrow> npfloat" where
  "np_std xs =
     (if xs = [] then NaN
      else
        let arrmean = sum_list xs / real (length xs)
        in Finite (sqrt (sum_list (map (\<lambda>x. (x - arrmean) * (x - arrmean)) xs)
                         / real (length xs))))"

text \<open>\<^verbatim>\<open>grand_grand_mu[indices]\<close>: an index out of range raises.\<close>

fun take_indices :: "'a list \<Rightarrow> nat list \<Rightarrow> error + 'a list" where
  "take_indices xs [] = Inr []"
| "take_indices xs (i # is) =
     (if i < length xs
      then (case take_indices xs is of Inl e \<Rightarrow> Inl e | Inr ys \<Rightarrow> Inr (xs ! i # ys))
      else Inl IndexError)"

fun bootstrap_loop ::
  "(matrix \<Rightarrow> error + matrix) \<Rightarrow> (nat \<Rightarrow> nat \<Rightarrow> 'w \<Rightarrow> nat list \<times> 'w) \<Rightarrow> tensor list \<Rightarrow> nat
   \<Rightarrow> 'w world \<Rightarrow> real list \<Rightarrow> (error + real list) \<times> 'w world" where
  "bootstrap_loop linalg_inv random_choice grand_grand_mu 0 s effective_rh_list =
     (Inr effective_rh_list, s)"
| "bootstrap_loop linalg_inv random_choice grand_grand_mu (Suc k) s effective_rh_list =
     (let ensemble_size = length grand_grand_mu;
          (indices, w) = random_choice ensemble_size ensemble_size (rng s);
          s' = s\<lparr>rng := w\<rparr>
      in case take_indices grand_grand_mu indices of
           Inl e \<Rightarrow> (Inl e, s')
         | Inr b_grand_grand_mu \<Rightarrow>
             (case effective_rh linalg_inv b_grand_grand_mu of
                Inl e \<Rightarrow> (Inl e, s')
              | Inr b_effective_rh \<Rightarrow>
                  bootstrap_loop linalg_inv random_choice grand_grand_mu k s'
                    (effective_rh_list @ [b_effective_rh])))"

definition effective_rh_sigma ::
  "(matrix \<Rightarrow> error + matrix) \<Rightarrow> (nat \<Rightarrow> nat \<Rightarrow> 'w \<Rightarrow> nat list \<times> 'w) \<Rightarrow> tensor list
   \<Rightarrow> int option \<Rightarrow> 'w world \<Rightarrow> (error + npfloat option) \<times> 'w world" where
  "effective_rh_sigma linalg_inv random_choice grand_grand_mu bootstrap_rounds s =
     (case bootstrap_rounds of
        None \<Rightarrow> (Inr None, s)
      | Some r \<Rightarrow>
          (case bootstrap_loop linalg_inv random_choice grand_grand_mu (nat r) s [] of
             (Inl e, s') \<Rightarrow> (Inl e, s')
           | (Inr effective_rh_list, s') \<Rightarrow> (Inr (Some (np_std effective_rh_list)), s')))"

section \<open>The entry point\<close>

text \<open>
  The collaborators are parameters: the chain generator of \<^verbatim>\<open>sarw_spheres\<close>, the
  mobility evaluator of \<^verbatim>\<open>pygrpy\<close>, and numpy's inverse and random choice. The progress
  bar only wraps the range and is left out.
\<close>

record ('w, 'c) collaborators =
  generateChain :: "pynum list \<Rightarrow> 'w \<Rightarrow> (error + 'c) \<times> 'w"
  muTT :: "'c \<Rightarrow> pynum list \<Rightarrow> error + tensor"
  linalg_inv :: "matrix \<Rightarrow> error + matrix"
  random_choice :: "nat \<Rightarrow> nat \<Rightarrow> 'w \<Rightarrow> nat list \<times> 'w"

record result =
  protein_rh :: real
  protein_rh_sigma :: "npfloat option"

fun sample_ensemble ::
  "(pynum list \<Rightarrow> 'w \<Rightarrow> (error + 'c) \<times> 'w) \<Rightarrow> pynum list \<Rightarrow> nat \<Rightarrow> 'w world \<Rightarrow> 'c list
   \<Rightarrow> (error + 'c list) \<times> 'w world" where
  "sample_ensemble gen radii 0 s conformation_ensemble = (Inr conformation_ensemble, s)"
| "sample_ensemble gen radii (Suc k) s conformation_ensemble =
     (let (r, w) = gen radii (rng s);
          s' = \<lparr>rng = w, chain_calls = Suc (chain_calls s)\<rparr>
      in case r of
           Inl e \<Rightarrow> (Inl e, s')
         | Inr c \<Rightarrow> sample_ensemble gen radii k s' (conformation_ensemble @ [c]))"

fun all_muTT :: "('c \<Rightarrow> pynum list \<Rightarrow> error + tensor) \<Rightarrow> 'c list \<Rightarrow> pynum list
                 \<Rightarrow> error + tensor list" where
  "all_muTT mu [] radii = Inr []"
| "all_muTT mu (locations # rest) radii =
     (case mu locations radii of
        Inl e \<Rightarrow> Inl e
      | Inr t \<Rightarrow> (case all_muTT mu rest radii of Inl e \<Rightarrow> Inl e | Inr ts \<Rightarrow> Inr (t # ts)))"

definition protein_hydrodynamic_radius ::
  "('w, 'c) collaborators \<Rightarrow> string \<Rightarrow> real \<Rightarrow> real \<Rightarrow> real \<Rightarrow> real \<Rightarrow> int \<Rightarrow> int option
   \<Rightarrow> (char \<rightharpoonup> real) \<Rightarrow> 'w world \<Rightarrow> (error + result) \<times> 'w world" where
  "protein_hydrodynamic_radius col sequence steric_radius hydrodynamic_radius
     effective_density hydration_thickness ensemble_size bootstrap_rounds aminoacid_masses s =
     (case bead_description_compact sequence hydrodynamic_radius steric_radius
             effective_density hydration_thickness aminoacid_masses of
        Inl e \<Rightarrow> (Inl e, s)
      | Inr bdc \<Rightarrow>
          (case sample_ensemble (generateChain col) (bead_steric_radii bdc)
                  (nat ensemble_size) s [] of
             (Inl e, s1) \<Rightarrow> (Inl e, s1)
           | (Inr conformation_ensemble, s1) \<Rightarrow>
               (case all_muTT (muTT col) conformation_ensemble (bead_hydrodynamic_radii bdc) of
                  Inl e \<Rightarrow> (Inl e, s1)
                | Inr grand_grand_mu \<Rightarrow>
                    (case effective_rh (linalg_inv col) grand_grand_mu of
                       Inl e \<Rightarrow> (Inl e, s1)
                     | Inr rh \<Rightarrow>
                         (case effective_rh_sigma (linalg_inv col) (random_choice col)
                                 grand_grand_mu bootstrap_rounds s1 of
                            (Inl e, s2) \<Rightarrow> (Inl e, s2)
                          | (Inr sigma, s2) \<Rightarrow>
                              (Inr \<lparr>protein_rh = rh, protein_rh_sigma = sigma\<rparr>, s2))))))"

section \<open>Notions used in the statements\<close>

text \<open>Python's \<^verbatim>\<open><\<close> on two numbers: defined between floats only.\<close>

fun py_less :: "pynum \<Rightarrow> pynum \<Rightarrow> bool" where
  "py_less (PyFloat x) (PyFloat y) = (x < y)"
| "py_less _ _ = False"

definition count :: "bead_group \<Rightarrow> int" where
  "count g = snd (snd g)"

text \<open>
  A block that the loop body accepts: a linker block, or a domain block whose inner symbols
  all have a mass, with a density that can be divided by.
\<close>

definition block_ok :: "real \<Rightarrow> (char \<rightharpoonup> real) \<Rightarrow> string \<Rightarrow> bool" where
  "block_ok effective_density aminoacid_masses block \<longleftrightarrow>
     (if is_domain_block block
      then (\<forall>aa \<in> set (butlast (tl block)). aminoacid_masses aa \<noteq> None) \<and> effective_density \<noteq> 0
      else is_linker_block block)"


text \<open>
  The reduction in the words of the specification, entry by entry: the mean of the \<open>M\<close>
  tensors, the trace of each 3 by 3 block, the inverse, the sum of all entries, the division
  by \<open>2\<pi>\<close>.
\<close>

definition spec_grand_mu :: "nat \<Rightarrow> tensor list \<Rightarrow> tensor" where
  "spec_grand_mu N ggm =
     map (\<lambda>i. map (\<lambda>j. map (\<lambda>a. map (\<lambda>b.
        (\<Sum>t\<leftarrow>ggm. t ! i ! j ! a ! b) / real (length ggm))
      [0..<3]) [0..<3]) [0..<N]) [0..<N]"

definition spec_grand_trace :: "nat \<Rightarrow> tensor \<Rightarrow> matrix" where
  "spec_grand_trace N mu =
     map (\<lambda>i. map (\<lambda>j. mu ! i ! j ! 0 ! 0 + mu ! i ! j ! 1 ! 1 + mu ! i ! j ! 2 ! 2) [0..<N]) [0..<N]"

definition spec_effective_rh ::
  "(matrix \<Rightarrow> error + matrix) \<Rightarrow> nat \<Rightarrow> tensor list \<Rightarrow> error + real" where
  "spec_effective_rh linv N ggm =
     (case linv (spec_grand_trace N (spec_grand_mu N ggm)) of
        Inl e \<Rightarrow> Inl e
      | Inr inv_mat \<Rightarrow>
          Inr ((\<Sum>i\<leftarrow>[0..<length inv_mat]. \<Sum>j\<leftarrow>[0..<length (inv_mat ! i)]. inv_mat ! i ! j)
               / (2 * pi)))"

text \<open>The array of a given shape whose entries are given by their indices.\<close>

definition tabulate4 ::
  "nat \<Rightarrow> nat \<Rightarrow> nat \<Rightarrow> nat \<Rightarrow> (nat \<Rightarrow> nat \<Rightarrow> nat \<Rightarrow> nat \<Rightarrow> real) \<Rightarrow> tensor" where
  "tabulate4 n1 n2 n3 n4 F =
     map (\<lambda>i. map (\<lambda>j. map (\<lambda>a. map (\<lambda>b. F i j a b) [0..<n4]) [0..<n3]) [0..<n2]) [0..<n1]"

text \<open>Concrete collaborators and data for the worked instances.\<close>

fun inv_1x1 :: "matrix \<Rightarrow> error + matrix" where
  "inv_1x1 [[x]] = (if x = 0 then Inl LinAlgError else Inr [[1 / x]])"
| "inv_1x1 _ = Inl LinAlgError"


definition one_bead_tensor :: "real \<Rightarrow> tensor" where
  "one_bead_tensor x = [[[[x, 0, 0], [0, x, 0], [0, 0, x]]]]"

section \<open>Rounded arithmetic\<close>










lemmas parser_defs = bead_description_compact_def re_split_def is_upper_def block_entry_def
  is_domain_block_def is_linker_block_def

section \<open>A sequence that is one structured domain\<close>

lemma domain_block_AAAA_entry:
  "block_entry 4.2 1.9025 0.52 3.0 default_aminoacid_masses ''[AAAA]''
     = Inr (PyFloat ((4 * 71.08 * 3 / (4 * pi) / 0.52) powr (1 / 3) + 3.0),
            PyFloat ((4 * 71.08 * 3 / (4 * pi) / 0.52) powr (1 / 3) + 3.0), 1)"
  by (simp add: block_entry_def is_domain_block_def default_aminoacid_masses_def
        block_excluded_volume_radius_def py_pow_third_def Let_def)

text \<open>
  C2. The claim: on \<^verbatim>\<open>"[AAAA]"\<close> with the default parameters the parser succeeds with one
  bead group of count 1 and the domain radius. The code: \<^verbatim>\<open>re.split\<close> returns the empty
  text before the domain as the first block, the loop body takes neither branch for it, and
  the parser raises \<^verbatim>\<open>ValueError("Malformed seqence passed: ")\<close>. The block
  \<^verbatim>\<open>"[AAAA]"\<close> alone would give the radius of the claim (\<open>domain_block_AAAA_entry\<close>).
\<close>

theorem single_domain_sequence_rejected:
  "bead_description_compact ''[AAAA]'' 4.2 1.9025 0.52 3.0 default_aminoacid_masses
     = Inl (ValueError ''Malformed seqence passed: '')"
  by (simp add: parser_defs)

section \<open>Calls of the chain generator\<close>

lemma sample_ensemble_calls_mono:
  "chain_calls s \<le> chain_calls (snd (sample_ensemble gen radii k s acc))"
proof (induction k arbitrary: s acc)
  case 0
  show ?case by simp
next
  case (Suc k)
  obtain r w where g: "gen radii (rng s) = (r, w)" by (cases "gen radii (rng s)")
  show ?case
  proof (cases r)
    case (Inl e)
    with g show ?thesis by simp
  next
    case (Inr c)
    have "Suc (chain_calls s)
          \<le> chain_calls (snd (sample_ensemble gen radii k
                \<lparr>rng = w, chain_calls = Suc (chain_calls s)\<rparr> (acc @ [c])))"
      using Suc.IH [of "\<lparr>rng = w, chain_calls = Suc (chain_calls s)\<rparr>" "acc @ [c]"] by simp
    with g Inr show ?thesis by simp
  qed
qed

lemma sample_ensemble_calls_pos:
  assumes "0 < k"
  shows "chain_calls s < chain_calls (snd (sample_ensemble gen radii k s acc))"
proof -
  obtain j where k: "k = Suc j" using assms by (cases k) auto
  obtain r w where g: "gen radii (rng s) = (r, w)" by (cases "gen radii (rng s)")
  show ?thesis
  proof (cases r)
    case (Inl e)
    with g k show ?thesis by simp
  next
    case (Inr c)
    have "Suc (chain_calls s)
          \<le> chain_calls (snd (sample_ensemble gen radii j
                \<lparr>rng = w, chain_calls = Suc (chain_calls s)\<rparr> (acc @ [c])))"
      using sample_ensemble_calls_mono
        [of "\<lparr>rng = w, chain_calls = Suc (chain_calls s)\<rparr>" gen radii j "acc @ [c]"] by simp
    with g k Inr show ?thesis by simp
  qed
qed

lemma bootstrap_loop_calls:
  "chain_calls (snd (bootstrap_loop linv choice ggm k s acc)) = chain_calls s"
  by (induction k arbitrary: s acc) (auto simp: Let_def split: prod.splits sum.splits)

lemma effective_rh_sigma_calls:
  "chain_calls (snd (effective_rh_sigma linv choice ggm br s)) = chain_calls s"
proof (cases br)
  case None
  then show ?thesis by (simp add: effective_rh_sigma_def)
next
  case (Some r)
  obtain x s' where b: "bootstrap_loop linv choice ggm (nat r) s [] = (x, s')"
    by (cases "bootstrap_loop linv choice ggm (nat r) s []")
  have "chain_calls s' = chain_calls s"
    using bootstrap_loop_calls [of linv choice ggm "nat r" s "[]"] b by simp
  with Some b show ?thesis
    by (cases x) (simp_all add: effective_rh_sigma_def)
qed

lemma parser_error_stops_the_run:
  assumes "bead_description_compact sequence hydrodynamic_radius steric_radius
             effective_density hydration_thickness aminoacid_masses = Inl e"
  shows "protein_hydrodynamic_radius col sequence steric_radius hydrodynamic_radius
           effective_density hydration_thickness ensemble_size bootstrap_rounds
           aminoacid_masses s = (Inl e, s)"
  using assms by (simp add: protein_hydrodynamic_radius_def)

text \<open>
  C3. The claim: \<^verbatim>\<open>"AA[BB"\<close> fails with MalformedSequence and the chain generator is never
  called. The code: the pattern finds no closing bracket, so the whole text is one block; it
  does not start with \<^verbatim>\<open>[\<close> and does not end with \<^verbatim>\<open>]\<close>, so it is taken as a linker
  of five beads. The parser returns, and with the default ensemble size of 30 the chain
  generator is called, whatever the collaborators do.
\<close>

theorem unmatched_bracket_accepted:
  "bead_description_compact ''AA[BB'' 4.2 1.9025 0.52 3.0 default_aminoacid_masses
       = Inr [(PyFloat 4.2, PyFloat 1.9025, 5)]
   \<and> chain_calls s
       < chain_calls (snd (protein_hydrodynamic_radius col ''AA[BB'' 1.9025 4.2 0.52 3.0 30
                             bootstrap_rounds default_aminoacid_masses s))"
proof -
  let ?bdc = "[(PyFloat 4.2, PyFloat 1.9025, 5)] :: bead_group list"
  have p: "bead_description_compact ''AA[BB'' 4.2 1.9025 0.52 3.0 default_aminoacid_masses
       = Inr ?bdc"
    by (simp add: parser_defs)
  obtain x s1 where
    se: "sample_ensemble (generateChain col) (bead_steric_radii ?bdc) (nat 30) s [] = (x, s1)"
    by (cases "sample_ensemble (generateChain col) (bead_steric_radii ?bdc) (nat 30) s []")
  have lt: "chain_calls s < chain_calls s1"
    using sample_ensemble_calls_pos
      [of "nat 30" s "generateChain col" "bead_steric_radii ?bdc" "[]"] se by simp
  have "chain_calls s
       < chain_calls (snd (protein_hydrodynamic_radius col ''AA[BB'' 1.9025 4.2 0.52 3.0 30
                             bootstrap_rounds default_aminoacid_masses s))"
  proof (cases x)
    case (Inl e)
    with p se lt show ?thesis by (simp add: protein_hydrodynamic_radius_def)
  next
    case (Inr confs)
    obtain y s2 where sg: "effective_rh_sigma (linalg_inv col) (random_choice col)
        (projr (all_muTT (muTT col) confs (bead_hydrodynamic_radii ?bdc))) bootstrap_rounds s1
        = (y, s2)"
      by (cases "effective_rh_sigma (linalg_inv col) (random_choice col)
        (projr (all_muTT (muTT col) confs (bead_hydrodynamic_radii ?bdc))) bootstrap_rounds s1")
    have "chain_calls s2 = chain_calls s1"
      using effective_rh_sigma_calls [of "linalg_inv col" "random_choice col" _ bootstrap_rounds s1]
        sg by (metis snd_conv)
    with p se lt Inr sg show ?thesis
      by (auto simp add: protein_hydrodynamic_radius_def split: sum.splits)
  qed
  with p show ?thesis by blast
qed

section \<open>The sigma field\<close>

lemma disabled_bootstrap_sigma_is_none:
  "effective_rh_sigma linv choice ggm None s = (Inr None, s)"
  by (simp add: effective_rh_sigma_def)

text \<open>
  C4. The claim: with \<^verbatim>\<open>bootstrap_rounds\<close> unset or 0 no sigma is reported. The code: unset
  gives \<^verbatim>\<open>None\<close> (\<open>disabled_bootstrap_sigma_is_none\<close>), but 0 enters the branch, runs no
  round and reports \<^verbatim>\<open>np.std([])\<close>, which is \<^verbatim>\<open>nan\<close>.
\<close>

theorem zero_rounds_sigma_is_nan:
  "effective_rh_sigma linv choice ggm (Some 0) s = (Inr (Some NaN), s)"
  by (simp add: effective_rh_sigma_def np_std_def)

section \<open>The expander\<close>

lemma foldl_append_concat: "foldl (@) acc xss = acc @ concat xss"
  by (induction xss arbitrary: acc) simp_all

lemma expand_steric_concat:
  "bead_steric_radii bdc = concat (map (\<lambda>(hr, sr, n). replicate (nat n) sr) bdc)"
  by (simp add: bead_steric_radii_def foldl_append_concat)

lemma expand_hydrodynamic_concat:
  "bead_hydrodynamic_radii bdc = concat (map (\<lambda>(hr, sr, n). replicate (nat n) hr) bdc)"
  by (simp add: bead_hydrodynamic_radii_def foldl_append_concat)

lemma expand_lengths_equal:
  "length (bead_steric_radii bdc) = length (bead_hydrodynamic_radii bdc)"
  by (induction bdc) (auto simp: expand_steric_concat expand_hydrodynamic_concat)

lemma expand_length_counts:
  "\<forall>g \<in> set bdc. 0 \<le> count g \<Longrightarrow>
   int (length (bead_steric_radii bdc)) = sum_list (map count bdc)"
  by (induction bdc) (auto simp: expand_steric_concat count_def)

text \<open>
  C7. The steric array is each group's steric radius repeated \<open>count\<close> times, in group
  order; the hydrodynamic array the same with the hydrodynamic radius; the two have the same
  length, and when no count is negative that length is the sum of the counts.
\<close>

theorem expander_repeats_radii:
  assumes "\<forall>g \<in> set bdc. 0 \<le> count g"
  shows "bead_steric_radii bdc = concat (map (\<lambda>(hr, sr, n). replicate (nat n) sr) bdc)
       \<and> bead_hydrodynamic_radii bdc = concat (map (\<lambda>(hr, sr, n). replicate (nat n) hr) bdc)
       \<and> length (bead_steric_radii bdc) = length (bead_hydrodynamic_radii bdc)
       \<and> int (length (bead_steric_radii bdc)) = sum_list (map count bdc)"
  using assms expand_steric_concat expand_hydrodynamic_concat expand_lengths_equal
    expand_length_counts by blast

theorem expander_repeats_radii_witness:
  "list_all (\<lambda>g. 0 \<le> count g) [(PyFloat 4.2, PyFloat 1.9025, 2), (PyFloat 7, PyFloat 7, 1)]
   \<and> bead_steric_radii [(PyFloat 4.2, PyFloat 1.9025, 2), (PyFloat 7, PyFloat 7, 1)]
       = [PyFloat 1.9025, PyFloat 1.9025, PyFloat 7]
   \<and> bead_hydrodynamic_radii [(PyFloat 4.2, PyFloat 1.9025, 2), (PyFloat 7, PyFloat 7, 1)]
       = [PyFloat 4.2, PyFloat 4.2, PyFloat 7]
   \<and> int (length (bead_steric_radii [(PyFloat 4.2, PyFloat 1.9025, 2), (PyFloat 7, PyFloat 7, 1)]))
       = 3"
proof -
  have h: "\<forall>g \<in> set [(PyFloat 4.2, PyFloat 1.9025, 2), (PyFloat 7, PyFloat 7, 1)]. 0 \<le> count g"
    by (simp add: count_def)
  show ?thesis
    using h expander_repeats_radii [OF h] by (simp add: count_def numeral_2_eq_2)
qed

section \<open>The excluded-volume radius\<close>

text \<open>
  C9, as claimed: for every mass the radius falls strictly as the density rises. It does not
  for a domain of mass 0, such as one made of the placeholder symbols of the table (mass 0
  each): the radius is 0 at every density.
\<close>

theorem zero_mass_radius_constant:
  "sum_masses default_aminoacid_masses ''ZB'' 0 = Inr 0
   \<and> \<not> py_less (block_excluded_volume_radius 0 2) (block_excluded_volume_radius 0 1)"
  by (simp add: default_aminoacid_masses_def block_excluded_volume_radius_def py_pow_third_def)

text \<open>
  C9, amended: for a domain of strictly positive mass and densities \<open>0 < d1 < d2\<close>, the
  radius at \<open>d2\<close> is strictly below the radius at \<open>d1\<close> (in exact arithmetic).
\<close>

theorem excluded_volume_radius_decreasing:
  assumes "0 < block_mass" and "0 < d1" and "d1 < d2"
  shows "py_less (block_excluded_volume_radius block_mass d2)
                 (block_excluded_volume_radius block_mass d1)"
proof -
  define c where "c = block_mass * (3 / (4 * pi))"
  have c: "0 < c" using assms(1) by (simp add: c_def)
  have d2: "0 < d2" using assms(2,3) by simp
  have lt: "c / d2 < c / d1"
    using c assms(2,3) by (intro divide_strict_left_mono) simp_all
  have nn2: "0 \<le> c / d2" using c d2 by (intro divide_nonneg_pos) simp_all
  have nn1: "0 \<le> c / d1" using c assms(2) by (intro divide_nonneg_pos) simp_all
  have "(c / d2) powr (1 / 3) < (c / d1) powr (1 / 3)"
    using lt nn2 by (intro powr_less_mono2) simp_all
  then show ?thesis
    using nn1 nn2
    unfolding block_excluded_volume_radius_def py_pow_third_def c_def [symmetric]
    by simp
qed

theorem excluded_volume_radius_decreasing_witness:
  "(0::real) < 1 \<and> (1::real) < 2
   \<and> py_less (block_excluded_volume_radius 1 2) (block_excluded_volume_radius 1 1)"
  using excluded_volume_radius_decreasing [of 1 1 2] by simp

section \<open>The blocks of a sequence\<close>

lemma lazy_dot_close_concat:
  "lazy_dot_close cs = Some (m, rest) \<Longrightarrow> m @ CHR '']'' # rest = cs"
  by (induction cs arbitrary: m) (auto split: if_splits option.splits)

lemma match_domain_concat:
  "match_domain s = Some (m, rest) \<Longrightarrow> m @ rest = s"
  by (cases s rule: match_domain.cases)
     (auto split: if_splits option.splits dest: lazy_dot_close_concat)

lemma concat_re_split_from: "concat (re_split_from pending s) = pending @ s"
proof (induction pending s rule: re_split_from.induct)
  case (1 pending)
  show ?case by simp
next
  case (2 pending c cs)
  show ?case
  proof (cases "match_domain (c # cs)")
    case None
    with 2 show ?thesis by simp
  next
    case (Some a)
    obtain m rest where a: "a = (m, rest)" by (cases a)
    have "m @ rest = c # cs" using Some a match_domain_concat by blast
    with 2 Some a show ?thesis by simp
  qed
qed

lemma concat_re_split: "concat (re_split s) = s"
  by (simp add: re_split_def concat_re_split_from)

section \<open>What the loop body accepts\<close>

lemma sum_masses_Inr_iff:
  "(\<exists>v. sum_masses ms xs acc = Inr v) \<longleftrightarrow> (\<forall>aa \<in> set xs. ms aa \<noteq> None)"
  by (induction xs arbitrary: acc) (auto split: option.splits)


lemma domain_not_linker: "is_domain_block b \<Longrightarrow> \<not> is_linker_block b"
  by (simp add: is_domain_block_def is_linker_block_def)

lemma block_entry_linker:
  "is_linker_block b \<Longrightarrow>
   block_entry hr sr d h ms b = Inr (PyFloat hr, PyFloat sr, int (length b))"
  using domain_not_linker [of b] by (auto simp: block_entry_def)

lemma block_entry_domain_count:
  "is_domain_block b \<Longrightarrow> block_entry hr sr d h ms b = Inr g \<Longrightarrow> count g = 1"
  by (auto simp: block_entry_def count_def Let_def split: sum.splits if_splits)

lemma block_entry_Inr_iff:
  "(\<exists>g. block_entry hr sr d h ms b = Inr g) \<longleftrightarrow> block_ok d ms b"
proof (cases "is_domain_block b")
  case True
  show ?thesis
  proof (cases "sum_masses ms (butlast (tl b)) 0")
    case (Inl e)
    then have "\<not> (\<forall>aa \<in> set (butlast (tl b)). ms aa \<noteq> None)"
      using sum_masses_Inr_iff [of ms "butlast (tl b)" 0] by simp
    with True Inl show ?thesis by (simp add: block_entry_def block_ok_def)
  next
    case (Inr v)
    then have "\<forall>aa \<in> set (butlast (tl b)). ms aa \<noteq> None"
      using sum_masses_Inr_iff [of ms "butlast (tl b)" 0] by blast
    with True Inr show ?thesis by (simp add: block_entry_def block_ok_def Let_def)
  qed
next
  case False
  then show ?thesis by (simp add: block_entry_def block_ok_def)
qed


lemma parse_blocks_Inr_iff:
  "parse_blocks hr sr d h ms bs acc = Inr res \<longleftrightarrow>
   (\<exists>gs. res = acc @ gs \<and> list_all2 (\<lambda>b g. block_entry hr sr d h ms b = Inr g) bs gs)"
proof (induction bs arbitrary: acc)
  case Nil
  show ?case by auto
next
  case (Cons b bs)
  let ?P = "\<lambda>b g. block_entry hr sr d h ms b = Inr g"
  show ?case
  proof (cases "block_entry hr sr d h ms b")
    case (Inl e)
    have "\<not> (\<exists>gs. res = acc @ gs \<and> list_all2 ?P (b # bs) gs)"
    proof
      assume "\<exists>gs. res = acc @ gs \<and> list_all2 ?P (b # bs) gs"
      then obtain gs where "list_all2 ?P (b # bs) gs" by blast
      then obtain g where "?P b g" by (cases gs) simp_all
      with Inl show False by simp
    qed
    with Inl show ?thesis by simp
  next
    case (Inr g)
    have "parse_blocks hr sr d h ms (b # bs) acc = Inr res \<longleftrightarrow>
          (\<exists>gs'. res = (acc @ [g]) @ gs' \<and> list_all2 ?P bs gs')"
      using Inr Cons.IH [of "acc @ [g]"] by simp
    also have "\<dots> \<longleftrightarrow> (\<exists>gs. res = acc @ gs \<and> list_all2 ?P (b # bs) gs)"
    proof
      assume "\<exists>gs'. res = (acc @ [g]) @ gs' \<and> list_all2 ?P bs gs'"
      then obtain gs' where "res = (acc @ [g]) @ gs'" "list_all2 ?P bs gs'" by blast
      then have "res = acc @ (g # gs') \<and> list_all2 ?P (b # bs) (g # gs')"
        using Inr by simp
      then show "\<exists>gs. res = acc @ gs \<and> list_all2 ?P (b # bs) gs" by blast
    next
      assume "\<exists>gs. res = acc @ gs \<and> list_all2 ?P (b # bs) gs"
      then obtain gs where gs: "res = acc @ gs" "list_all2 ?P (b # bs) gs" by blast
      then obtain g0 gs' where c: "gs = g0 # gs'" by (cases gs) simp_all
      with gs(2) have "?P b g0" "list_all2 ?P bs gs'" by simp_all
      with Inr have "g0 = g" by simp
      with gs(1) c \<open>list_all2 ?P bs gs'\<close>
      have "res = (acc @ [g]) @ gs' \<and> list_all2 ?P bs gs'" by simp
      then show "\<exists>gs'. res = (acc @ [g]) @ gs' \<and> list_all2 ?P bs gs'" by blast
    qed
    finally show ?thesis .
  qed
qed


lemma entries_exist:
  "\<forall>b \<in> set bs. \<exists>g. block_entry hr sr d h ms b = Inr g \<Longrightarrow>
   \<exists>gs. list_all2 (\<lambda>b g. block_entry hr sr d h ms b = Inr g) bs gs"
proof (induction bs)
  case Nil
  show ?case by simp
next
  case (Cons b bs)
  let ?P = "\<lambda>b g. block_entry hr sr d h ms b = Inr g"
  from Cons.prems have "\<exists>g. ?P b g" by (simp del: split_paired_Ex)
  then obtain g where g: "?P b g" by blast
  from Cons.prems have "\<forall>b \<in> set bs. \<exists>g. ?P b g" by (simp del: split_paired_Ex)
  then obtain gs where "list_all2 ?P bs gs" using Cons.IH by blast
  with g have "list_all2 ?P (b # bs) (g # gs)" by simp
  then show ?case by blast
qed

lemma entries_count_sum:
  "list_all2 (\<lambda>b g. block_entry hr sr d h ms b = Inr g) bs gs \<Longrightarrow>
   sum_list (map count gs)
     = (\<Sum>b\<leftarrow>filter is_linker_block bs. int (length b)) + int (length (filter is_domain_block bs))"
proof (induction bs gs rule: list_all2_induct)
  case Nil
  show ?case by simp
next
  case (Cons b bs g gs)
  show ?case
  proof (cases "is_domain_block b")
    case True
    then have "count g = 1" using Cons.hyps(1) block_entry_domain_count by blast
    with True Cons.IH domain_not_linker [of b] show ?thesis by simp
  next
    case False
    with Cons.hyps(1) have l: "is_linker_block b"
      by (auto simp: block_entry_def split: if_splits)
    then have "g = (PyFloat hr, PyFloat sr, int (length b))"
      using Cons.hyps(1) block_entry_linker [of b hr sr d h ms] by simp
    then have "count g = int (length b)" by (simp add: count_def)
    with False l Cons.IH show ?thesis by simp
  qed
qed

text \<open>
  When the loop body accepts every block of the split (\<open>block_ok\<close>), the parser returns;
  the blocks, in order, make up the input; the groups are the entries of the blocks, one per
  block and in the same order (a domain block gives count 1, a linker block the linker radii
  and its length); and the counts add up to the characters of the linker blocks plus the
  number of domain blocks.
\<close>

lemma accepted_blocks_give_groups_in_order:
  assumes "\<forall>b \<in> set (re_split seq). block_ok d ms b"
  shows "\<exists>bdc. bead_description_compact seq hr sr d h ms = Inr bdc
      \<and> concat (re_split seq) = seq
      \<and> length bdc = length (re_split seq)
      \<and> (\<forall>i < length bdc.
            block_entry hr sr d h ms (re_split seq ! i) = Inr (bdc ! i)
          \<and> (is_domain_block (re_split seq ! i) \<longrightarrow> count (bdc ! i) = 1)
          \<and> (is_linker_block (re_split seq ! i) \<longrightarrow>
               bdc ! i = (PyFloat hr, PyFloat sr, int (length (re_split seq ! i)))))
      \<and> sum_list (map count bdc)
          = (\<Sum>b\<leftarrow>filter is_linker_block (re_split seq). int (length b))
            + int (length (filter is_domain_block (re_split seq)))"
proof -
  let ?bs = "re_split seq"
  let ?P = "\<lambda>b g. block_entry hr sr d h ms b = Inr g"
  have "\<forall>b \<in> set ?bs. \<exists>g. ?P b g"
    using assms block_entry_Inr_iff by blast
  then have "\<exists>gs. list_all2 ?P ?bs gs" by (rule entries_exist)
  then obtain gs where gs: "list_all2 ?P ?bs gs" by blast
  have parse: "bead_description_compact seq hr sr d h ms = Inr gs"
    using gs parse_blocks_Inr_iff [of hr sr d h ms ?bs "[]" gs]
    by (simp add: bead_description_compact_def)
  have len: "length gs = length ?bs" using gs by (simp add: list_all2_lengthD)
  have nth: "\<forall>i < length gs. ?P (?bs ! i) (gs ! i)"
  proof (intro allI impI)
    fix i assume "i < length gs"
    then have "i < length ?bs" using len by simp
    then show "?P (?bs ! i) (gs ! i)" using list_all2_nthD [OF gs] by blast
  qed
  have each: "\<forall>i < length gs.
            block_entry hr sr d h ms (?bs ! i) = Inr (gs ! i)
          \<and> (is_domain_block (?bs ! i) \<longrightarrow> count (gs ! i) = 1)
          \<and> (is_linker_block (?bs ! i) \<longrightarrow>
               gs ! i = (PyFloat hr, PyFloat sr, int (length (?bs ! i))))"
  proof (intro allI impI)
    fix i assume i: "i < length gs"
    then have e: "block_entry hr sr d h ms (?bs ! i) = Inr (gs ! i)" using nth by blast
    have "is_domain_block (?bs ! i) \<longrightarrow> count (gs ! i) = 1"
      using e block_entry_domain_count by blast
    moreover have "is_linker_block (?bs ! i) \<longrightarrow>
               gs ! i = (PyFloat hr, PyFloat sr, int (length (?bs ! i)))"
      using e block_entry_linker [of "?bs ! i" hr sr d h ms] by auto
    ultimately show "block_entry hr sr d h ms (?bs ! i) = Inr (gs ! i)
          \<and> (is_domain_block (?bs ! i) \<longrightarrow> count (gs ! i) = 1)
          \<and> (is_linker_block (?bs ! i) \<longrightarrow>
               gs ! i = (PyFloat hr, PyFloat sr, int (length (?bs ! i))))"
      using e by blast
  qed
  have total: "sum_list (map count gs)
          = (\<Sum>b\<leftarrow>filter is_linker_block ?bs. int (length b))
            + int (length (filter is_domain_block ?bs))"
    using gs by (rule entries_count_sum)
  show ?thesis
    using parse concat_re_split [of seq] len each total by blast
qed

text \<open>
  C6. The claim: for every well-formed sequence the groups follow the segments in order and
  the counts add up to the residues of the free segments plus the number of bracketed
  segments. \<^verbatim>\<open>"AA[CC]"\<close> is a free run of two residues and one bracketed domain, three
  beads by the claim, and \<^verbatim>\<open>"A[C][D]E"\<close> is two free residues and two domains, four beads.
  The code: \<^verbatim>\<open>re.split\<close> returns the empty text after the last domain, and the empty
  text between the two adjacent domains, as blocks of their own; the loop body takes neither
  branch for an empty block and the parser raises, with no groups returned. It is the defect
  of C2, at the end of the sequence and between domains instead of at the start.
\<close>

theorem trailing_or_adjacent_domain_rejected:
  "re_split ''AA[CC]'' = [''AA'', ''[CC]'', []]
   \<and> bead_description_compact ''AA[CC]'' 4.2 1.9025 0.52 3.0 default_aminoacid_masses
       = Inl (ValueError ''Malformed seqence passed: '')
   \<and> re_split ''A[C][D]E'' = [''A'', ''[C]'', [], ''[D]'', ''E'']
   \<and> bead_description_compact ''A[C][D]E'' 4.2 1.9025 0.52 3.0 default_aminoacid_masses
       = Inl (ValueError ''Malformed seqence passed: '')"
  by (simp add: parser_defs default_aminoacid_masses_def
        block_excluded_volume_radius_def py_pow_third_def Let_def)

section \<open>The missing-key error\<close>





section \<open>The order of the ensemble\<close>









section \<open>Rounding and the order of the ensemble\<close>













section \<open>The reduction, entry by entry\<close>

lemma map2_map_upt:
  "map2 f (map g [0..<n]) (map h [0..<n]) = map (\<lambda>i. f (g i) (h i)) [0..<n]"
  by (induction n) simp_all

lemma tabulate_list:
  assumes "length xs = n" and "\<And>i. i < n \<Longrightarrow> xs ! i = f i"
  shows "xs = map f [0..<n]"
  using assms by (intro nth_equalityI) simp_all

lemma has_shape_tabulate4:
  assumes "has_shape n1 n2 n3 n4 t"
  shows "t = tabulate4 n1 n2 n3 n4 (\<lambda>i j a b. t ! i ! j ! a ! b)"
  unfolding tabulate4_def
proof (rule tabulate_list)
  show l1: "length t = n1" using assms by (simp add: has_shape_def)
  fix i assume i: "i < n1"
  then have ti: "t ! i \<in> set t" using l1 by simp
  have s1: "\<forall>x \<in> set t. length x = n2 \<and>
        (\<forall>y \<in> set x. length y = n3 \<and> (\<forall>z \<in> set y. length z = n4))"
    using assms unfolding has_shape_def by blast
  show "t ! i = map (\<lambda>j. map (\<lambda>a. map (\<lambda>b. t ! i ! j ! a ! b) [0..<n4]) [0..<n3]) [0..<n2]"
  proof (rule tabulate_list)
    show l2: "length (t ! i) = n2" using s1 ti by blast
    have s2: "\<forall>y \<in> set (t ! i). length y = n3 \<and> (\<forall>z \<in> set y. length z = n4)"
      using s1 ti by blast
    fix j assume j: "j < n2"
    then have tj: "t ! i ! j \<in> set (t ! i)" using l2 by simp
    show "t ! i ! j = map (\<lambda>a. map (\<lambda>b. t ! i ! j ! a ! b) [0..<n4]) [0..<n3]"
    proof (rule tabulate_list)
      show l3: "length (t ! i ! j) = n3" using s2 tj by blast
      have s3: "\<forall>z \<in> set (t ! i ! j). length z = n4" using s2 tj by blast
      fix a assume a: "a < n3"
      then have ta: "t ! i ! j ! a \<in> set (t ! i ! j)" using l3 by simp
      show "t ! i ! j ! a = map (\<lambda>b. t ! i ! j ! a ! b) [0..<n4]"
      proof (rule tabulate_list)
        show "length (t ! i ! j ! a) = n4" using s3 ta by blast
      qed simp
    qed
  qed
qed


lemma tensor_add_tabulate4:
  "tensor_add (tabulate4 n1 n2 n3 n4 F) (tabulate4 n1 n2 n3 n4 G)
   = tabulate4 n1 n2 n3 n4 (\<lambda>i j a b. F i j a b + G i j a b)"
  unfolding tensor_add_def tabulate4_def by (simp only: map2_map_upt)


lemma foldl_tensor_add_tabulate4:
  assumes "\<forall>u \<in> set ts. has_shape n1 n2 n3 n4 u"
  shows "foldl tensor_add (tabulate4 n1 n2 n3 n4 F) ts
         = tabulate4 n1 n2 n3 n4 (\<lambda>i j a b. F i j a b + (\<Sum>u\<leftarrow>ts. u ! i ! j ! a ! b))"
  using assms
proof (induction ts arbitrary: F)
  case Nil
  show ?case by simp
next
  case (Cons u ts)
  define U where "U = (\<lambda>i j a b. u ! i ! j ! a ! b)"
  have "has_shape n1 n2 n3 n4 u" using Cons.prems by simp
  then have u: "u = tabulate4 n1 n2 n3 n4 U"
    unfolding U_def by (rule has_shape_tabulate4)
  have rest: "\<forall>v \<in> set ts. has_shape n1 n2 n3 n4 v" using Cons.prems by simp
  have step: "tensor_add (tabulate4 n1 n2 n3 n4 F) u
              = tabulate4 n1 n2 n3 n4 (\<lambda>i j a b. F i j a b + U i j a b)"
    by (subst u) (rule tensor_add_tabulate4)
  have "foldl tensor_add (tabulate4 n1 n2 n3 n4 F) (u # ts)
        = foldl tensor_add (tabulate4 n1 n2 n3 n4 (\<lambda>i j a b. F i j a b + U i j a b)) ts"
    by (simp only: foldl_Cons step)
  also have "\<dots> = tabulate4 n1 n2 n3 n4
        (\<lambda>i j a b. (F i j a b + U i j a b) + (\<Sum>v\<leftarrow>ts. v ! i ! j ! a ! b))"
    by (rule Cons.IH [OF rest])
  also have "\<dots> = tabulate4 n1 n2 n3 n4
        (\<lambda>i j a b. F i j a b + (\<Sum>v\<leftarrow>u # ts. v ! i ! j ! a ! b))"
    by (simp add: U_def add.assoc)
  finally show ?case .
qed

lemma np_mean_axis0_entries:
  assumes "ggm \<noteq> []" and "\<forall>t \<in> set ggm. has_shape n1 n2 n3 n4 t"
  shows "np_mean_axis0 ggm
         = tabulate4 n1 n2 n3 n4
             (\<lambda>i j a b. (\<Sum>t\<leftarrow>ggm. t ! i ! j ! a ! b) / real (length ggm))"
proof -
  obtain t ts where g: "ggm = t # ts" using assms(1) by (cases ggm) simp_all
  define T where "T = (\<lambda>i j a b. t ! i ! j ! a ! b)"
  have "has_shape n1 n2 n3 n4 t" using assms(2) g by simp
  then have t: "t = tabulate4 n1 n2 n3 n4 T"
    unfolding T_def by (rule has_shape_tabulate4)
  have rest: "\<forall>u \<in> set ts. has_shape n1 n2 n3 n4 u" using assms(2) g by simp
  have "np_sum_axis0 ggm = foldl tensor_add t ts"
    by (simp only: g np_sum_axis0.simps)
  also have "\<dots> = foldl tensor_add (tabulate4 n1 n2 n3 n4 T) ts"
    by (subst t) (rule refl)
  also have "\<dots> = tabulate4 n1 n2 n3 n4
        (\<lambda>i j a b. T i j a b + (\<Sum>u\<leftarrow>ts. u ! i ! j ! a ! b))"
    by (rule foldl_tensor_add_tabulate4 [OF rest])
  also have "\<dots> = tabulate4 n1 n2 n3 n4 (\<lambda>i j a b. (\<Sum>u\<leftarrow>ggm. u ! i ! j ! a ! b))"
    by (simp add: g T_def)
  finally have sum: "np_sum_axis0 ggm
        = tabulate4 n1 n2 n3 n4 (\<lambda>i j a b. (\<Sum>u\<leftarrow>ggm. u ! i ! j ! a ! b))" .
  show ?thesis
    unfolding np_mean_axis0_def sum by (simp add: tabulate4_def)
qed

lemma upt_3: "[0..<3] = [0, 1, 2]"
  by (simp add: numeral_3_eq_3)

lemma np_trace_last2_tabulate4:
  "np_trace_last2 (tabulate4 n1 n2 3 3 F)
   = map (\<lambda>i. map (\<lambda>j. F i j 0 0 + F i j 1 1 + F i j 2 2) [0..<n2]) [0..<n1]"
  by (simp add: np_trace_last2_def tabulate4_def np_trace_def upt_3)

lemma spec_grand_trace_tabulate4:
  "spec_grand_trace N (tabulate4 N N 3 3 F)
   = map (\<lambda>i. map (\<lambda>j. F i j 0 0 + F i j 1 1 + F i j 2 2) [0..<N]) [0..<N]"
  by (simp add: spec_grand_trace_def tabulate4_def upt_3)

lemma sum_list_by_index: "sum_list xs = (\<Sum>j\<leftarrow>[0..<length xs]. xs ! j)"
  by (simp add: map_nth)

lemma sum_list_of_concat: "sum_list (concat xss) = sum_list (map sum_list xss)"
  by (induction xss) simp_all

lemma np_sum_entries:
  "np_sum m = (\<Sum>i\<leftarrow>[0..<length m]. \<Sum>j\<leftarrow>[0..<length (m ! i)]. m ! i ! j)"
proof -
  have rows: "map (\<lambda>i. sum_list (m ! i)) [0..<length m] = map sum_list m"
    by (intro nth_equalityI) simp_all
  have "np_sum m = sum_list (map sum_list m)"
    by (simp only: np_sum_def sum_list_of_concat)
  also have "\<dots> = (\<Sum>i\<leftarrow>[0..<length m]. sum_list (m ! i))"
    by (simp only: rows)
  also have "\<dots> = (\<Sum>i\<leftarrow>[0..<length m]. \<Sum>j\<leftarrow>[0..<length (m ! i)]. m ! i ! j)"
    by (simp only: sum_list_by_index [symmetric])
  finally show ?thesis .
qed

text \<open>
  C1. For an ensemble of \<open>M \<ge> 1\<close> tensors of \<open>N\<close> beads, the code's effective radius
  is the specification's reduction: the entrywise mean over the ensemble, then the trace of
  every 3 by 3 block, then the inverse of that \<open>N \<times> N\<close> matrix (or its error), then the
  sum of all entries of the inverse, then the division by \<open>2\<pi>\<close>.
\<close>

theorem effective_rh_is_spec_reduction:
  assumes "grand_grand_mu \<noteq> []"
      and "\<forall>t \<in> set grand_grand_mu. has_shape N N 3 3 t"
  shows "effective_rh linv grand_grand_mu = spec_effective_rh linv N grand_grand_mu"
proof -
  let ?F = "\<lambda>i j a b. (\<Sum>t\<leftarrow>grand_grand_mu. t ! i ! j ! a ! b) / real (length grand_grand_mu)"
  have mean: "np_mean_axis0 grand_grand_mu = tabulate4 N N 3 3 ?F"
    using assms by (rule np_mean_axis0_entries)
  have spec_mean: "spec_grand_mu N grand_grand_mu = tabulate4 N N 3 3 ?F"
    by (simp add: spec_grand_mu_def tabulate4_def)
  have trace: "np_trace_last2 (np_mean_axis0 grand_grand_mu)
               = spec_grand_trace N (spec_grand_mu N grand_grand_mu)"
    by (simp only: mean spec_mean np_trace_last2_tabulate4 spec_grand_trace_tabulate4)
  show ?thesis
  proof (cases "linv (spec_grand_trace N (spec_grand_mu N grand_grand_mu))")
    case (Inl e)
    with assms(1) trace show ?thesis
      by (simp add: effective_rh_def spec_effective_rh_def)
  next
    case (Inr inv_mat)
    with assms(1) trace np_sum_entries [of inv_mat] show ?thesis
      by (simp add: effective_rh_def spec_effective_rh_def)
  qed
qed

theorem effective_rh_is_spec_reduction_witness:
  "has_shape 1 1 3 3 (one_bead_tensor 1) \<and> has_shape 1 1 3 3 (one_bead_tensor 2)
   \<and> spec_effective_rh inv_1x1 1 [one_bead_tensor 1, one_bead_tensor 2] = Inr (2 / 9 / (2 * pi))"
proof -
  have h1: "[one_bead_tensor 1, one_bead_tensor 2] \<noteq> []" by simp
  have s: "has_shape 1 1 3 3 (one_bead_tensor 1)" "has_shape 1 1 3 3 (one_bead_tensor 2)"
    by (simp_all add: has_shape_def one_bead_tensor_def)
  then have h2: "\<forall>t \<in> set [one_bead_tensor 1, one_bead_tensor 2]. has_shape 1 1 3 3 t"
    by simp
  have v: "effective_rh inv_1x1 [one_bead_tensor 1, one_bead_tensor 2] = Inr (2 / 9 / (2 * pi))"
    by (simp add: effective_rh_def np_mean_axis0_def tensor_add_def one_bead_tensor_def
          np_trace_last2_def np_trace_def np_sum_def)
  show ?thesis
    using s v effective_rh_is_spec_reduction [OF h1 h2, of inv_1x1] by simp
qed

text \<open>
  The order matters: averaging the two one-bead tensors and then inverting gives
  \<open>2/9\<close> before the division by \<open>2\<pi>\<close>; inverting each and then averaging gives
  \<open>(1/3 + 1/6) / 2 = 1/4\<close>.
\<close>

lemma averaging_and_inversion_do_not_commute:
  "effective_rh inv_1x1 [one_bead_tensor 1] = Inr (1 / 3 / (2 * pi))
   \<and> effective_rh inv_1x1 [one_bead_tensor 2] = Inr (1 / 6 / (2 * pi))
   \<and> effective_rh inv_1x1 [one_bead_tensor 1, one_bead_tensor 2] = Inr (2 / 9 / (2 * pi))
   \<and> (2 / 9 / (2 * pi) :: real) \<noteq> (1 / 3 / (2 * pi) + 1 / 6 / (2 * pi)) / 2"
  by (simp add: effective_rh_def np_mean_axis0_def tensor_add_def one_bead_tensor_def
        np_trace_last2_def np_trace_def np_sum_def)

section \<open>The bootstrap rounds\<close>










end
